theory Spec2Isabelle
  imports Complex_Main "HOL-Library.AList"
begin

section \<open>Data model of the commission service\<close>

text \<open>
  The RevSplit commission service (\<^verbatim>\<open>CommissionService\<close>) resolves a commission rule
  for an order item, computes the money split, writes ledger entries and moves them
  through their life cycle.

  \<^item> \<^verbatim>\<open>Prisma.Decimal\<close> is a decimal number; it is modelled by \<open>rat\<close>. Sums, differences
    and products of decimals and the division by 100 are decimals again, so the model
    is exact as long as a value fits the 20 significant digits \<^verbatim>\<open>Decimal\<close> keeps.
  \<^item> A \<^verbatim>\<open>Date\<close> is its number of milliseconds since the epoch, an \<open>int\<close>.
  \<^item> A nullable column or an optional argument is an \<open>option\<close>.
  \<^item> A database table is the list of its rows, in the order the database returns them.
\<close>

type_synonym decimal = rat
type_synonym timestamp = int

datatype CommissionRuleType = CAMPAIGN | SKU | PRODUCT | DEFAULT

datatype LedgerEntryType =
  SALE | COMMISSION | PLATFORM_FEE | PAYMENT_FEE | PAYOUT | REFUND | ADJUSTMENT

datatype LedgerEntryStatus = RESERVED | CLEARED | PAID | CANCELLED

text \<open>
  The error classes of \<^verbatim>\<open>utils/errors.ts\<close> the service can raise, each with its
  error code.
\<close>

datatype AppError =
  NotFoundError string
| ValidationError string
| ConflictError string
| InternalServerError string

record Order =
  order_id :: string
  order_organizationId :: string
  order_currency :: string

text \<open>
  The argument type \<^verbatim>\<open>OrderItem & { order: Order; sku: { productId: string } }\<close>.
\<close>

record OrderItem =
  item_id :: string
  item_skuId :: string
  item_subtotal :: decimal
  item_order :: Order
  item_sku_productId :: string

text \<open>
  The Prisma schema is not among the sources. The scope references and the validity
  window of a rule are nullable columns here (the seed script creates rules without
  them); a comparison or equality filter never matches a NULL.
\<close>

record CommissionRule =
  rule_id :: string
  rule_organizationId :: string
  rule_type :: CommissionRuleType
  rule_campaignId :: "string option"
  rule_skuId :: "string option"
  rule_productId :: "string option"
  rule_isActive :: bool
  rule_startDate :: "timestamp option"
  rule_endDate :: "timestamp option"
  rule_creatorPercent :: decimal
  rule_platformFeePercent :: decimal
  rule_minCommission :: "decimal option"
  rule_maxCommission :: "decimal option"

record CommissionCalculation =
  calc_orderItemId :: string
  calc_subtotal :: decimal
  calc_platformFee :: decimal
  calc_creatorCommission :: decimal
  calc_paymentFee :: decimal
  calc_sellerTake :: decimal
  calc_currency :: string
  calc_appliedRuleId :: string
  calc_appliedRuleType :: CommissionRuleType

text \<open>
  What an operation reads from outside: \<open>env_now k\<close> is the value of the \<open>k\<close>-th
  \<^verbatim>\<open>new Date()\<close> or \<^verbatim>\<open>Date.now()\<close> the operation evaluates (counted from 0),
  \<open>env_newId k\<close> and \<open>env_createdAt k\<close> are the id and the creation time the database
  gives the \<open>k\<close>-th row the operation inserts, and \<open>env_writeOk k\<close> tells whether the
  database accepts the \<open>k\<close>-th write statement of the operation.
\<close>

record Env =
  env_now :: "nat \<Rightarrow> timestamp"
  env_newId :: "nat \<Rightarrow> string"
  env_createdAt :: "nat \<Rightarrow> timestamp"
  env_writeOk :: "nat \<Rightarrow> bool"

section \<open>Rule resolution\<close>

text \<open>JavaScript truthiness of an optional string: \<^verbatim>\<open>undefined\<close> and \<^verbatim>\<open>""\<close> are falsy.\<close>

definition truthy :: "string option \<Rightarrow> bool" where
  "truthy s = (case s of None \<Rightarrow> False | Some v \<Rightarrow> v \<noteq> [])"

text \<open>
  The filters \<^verbatim>\<open>startDate: { lte: new Date() }, endDate: { gte: new Date() }\<close>, with the
  two clock readings \<open>t1\<close> and \<open>t2\<close>.
\<close>

definition dateWindow :: "CommissionRule \<Rightarrow> timestamp \<Rightarrow> timestamp \<Rightarrow> bool" where
  "dateWindow r t1 t2 =
     ((case rule_startDate r of None \<Rightarrow> False | Some s \<Rightarrow> s \<le> t1) \<and>
      (case rule_endDate r of None \<Rightarrow> False | Some e \<Rightarrow> t2 \<le> e))"

text \<open>The four \<^verbatim>\<open>where\<close> clauses of \<^verbatim>\<open>findApplicableCommissionRule\<close>.\<close>

definition campaignWhere ::
  "string \<Rightarrow> string option \<Rightarrow> timestamp \<Rightarrow> timestamp \<Rightarrow> CommissionRule \<Rightarrow> bool" where
  "campaignWhere organizationId campaignId t1 t2 r =
     (rule_organizationId r = organizationId \<and> rule_campaignId r = campaignId \<and>
      rule_type r = CAMPAIGN \<and> rule_isActive r \<and> dateWindow r t1 t2)"

definition skuWhere ::
  "string \<Rightarrow> string \<Rightarrow> timestamp \<Rightarrow> timestamp \<Rightarrow> CommissionRule \<Rightarrow> bool" where
  "skuWhere organizationId skuId t1 t2 r =
     (rule_organizationId r = organizationId \<and> rule_skuId r = Some skuId \<and>
      rule_type r = SKU \<and> rule_isActive r \<and> dateWindow r t1 t2)"

definition productWhere ::
  "string \<Rightarrow> string \<Rightarrow> timestamp \<Rightarrow> timestamp \<Rightarrow> CommissionRule \<Rightarrow> bool" where
  "productWhere organizationId productId t1 t2 r =
     (rule_organizationId r = organizationId \<and> rule_productId r = Some productId \<and>
      rule_type r = PRODUCT \<and> rule_isActive r \<and> dateWindow r t1 t2)"

definition defaultWhere ::
  "string \<Rightarrow> timestamp \<Rightarrow> timestamp \<Rightarrow> CommissionRule \<Rightarrow> bool" where
  "defaultWhere organizationId t1 t2 r =
     (rule_organizationId r = organizationId \<and>
      rule_type r = DEFAULT \<and> rule_isActive r \<and> dateWindow r t1 t2)"

text \<open>
  \<^verbatim>\<open>findApplicableCommissionRule\<close>: \<^verbatim>\<open>findFirst\<close> is \<open>find\<close> on the table. The campaign
  query runs only for a truthy \<^verbatim>\<open>campaignId\<close> and then takes the clock readings 0 and
  1; the later queries take the readings that follow.
\<close>

definition findApplicableCommissionRule ::
  "Env \<Rightarrow> CommissionRule list \<Rightarrow> OrderItem \<Rightarrow> string option \<Rightarrow> AppError + CommissionRule" where
  "findApplicableCommissionRule env rules orderItem campaignId =
     (let organizationId = order_organizationId (item_order orderItem);
          productId = item_sku_productId orderItem;
          now = env_now env;
          campaignRule =
            (if truthy campaignId
             then find (campaignWhere organizationId campaignId (now 0) (now 1)) rules
             else None);
          k = (if truthy campaignId then 2 else 0)
      in case campaignRule of
           Some r \<Rightarrow> Inr r
         | None \<Rightarrow>
        (case find (skuWhere organizationId (item_skuId orderItem) (now k) (now (k + 1))) rules of
           Some r \<Rightarrow> Inr r
         | None \<Rightarrow>
        (case find (productWhere organizationId productId (now (k + 2)) (now (k + 3))) rules of
           Some r \<Rightarrow> Inr r
         | None \<Rightarrow>
        (case find (defaultWhere organizationId (now (k + 4)) (now (k + 5))) rules of
           Some r \<Rightarrow> Inr r
         | None \<Rightarrow> Inl (NotFoundError ''COMMISSION_RULE_NOT_FOUND'')))))"

text \<open>
  A rule satisfies the \<^verbatim>\<open>where\<close> clause of one of the queries the resolver runs, with
  the clock readings \<open>t1\<close> and \<open>t2\<close>; the campaign query runs only for a truthy
  \<^verbatim>\<open>campaignId\<close>.
\<close>

definition matchesSomeTier ::
  "OrderItem \<Rightarrow> string option \<Rightarrow> timestamp \<Rightarrow> timestamp \<Rightarrow> CommissionRule \<Rightarrow> bool" where
  "matchesSomeTier orderItem campaignId t1 t2 r =
     (let organizationId = order_organizationId (item_order orderItem)
      in (truthy campaignId \<and> campaignWhere organizationId campaignId t1 t2 r) \<or>
         skuWhere organizationId (item_skuId orderItem) t1 t2 r \<or>
         productWhere organizationId (item_sku_productId orderItem) t1 t2 r \<or>
         defaultWhere organizationId t1 t2 r)"

section \<open>Commission calculation\<close>

text \<open>
  The steps of \<^verbatim>\<open>calculateCommission\<close> once the rule is known. A \<^verbatim>\<open>Decimal\<close> object is
  truthy whatever its value, so a cap applies exactly when the column is not NULL.
\<close>

definition platformFeeOf :: "CommissionRule \<Rightarrow> decimal \<Rightarrow> decimal" where
  "platformFeeOf rule subtotal = subtotal * rule_platformFeePercent rule / 100"

definition cappedCommission :: "CommissionRule \<Rightarrow> decimal \<Rightarrow> decimal" where
  "cappedCommission rule subtotal =
     (let c0 = subtotal * rule_creatorPercent rule / 100;
          c1 = (case rule_minCommission rule of
                  Some m \<Rightarrow> if c0 < m then m else c0
                | None \<Rightarrow> c0)
      in case rule_maxCommission rule of
           Some m \<Rightarrow> if c1 > m then m else c1
         | None \<Rightarrow> c1)"

definition paymentFeeOf :: "decimal \<Rightarrow> decimal \<Rightarrow> decimal" where
  "paymentFeeOf paymentFeePercent subtotal = subtotal * paymentFeePercent"

definition naiveSellerTake :: "CommissionRule \<Rightarrow> decimal \<Rightarrow> decimal \<Rightarrow> decimal" where
  "naiveSellerTake rule paymentFeePercent subtotal =
     subtotal - platformFeeOf rule subtotal - cappedCommission rule subtotal
       - paymentFeeOf paymentFeePercent subtotal"

text \<open>
  The parameter \<^verbatim>\<open>paymentFeePercent\<close> is a JavaScript number that
  \<^verbatim>\<open>new Prisma.Decimal\<close> reads through its decimal notation; it is modelled by the
  decimal it denotes. Its default is 0.029.
\<close>

definition defaultPaymentFeePercent :: decimal where
  "defaultPaymentFeePercent = 29 / 1000"

definition calculateCommission ::
  "Env \<Rightarrow> CommissionRule list \<Rightarrow> OrderItem \<Rightarrow> decimal option \<Rightarrow> string option
     \<Rightarrow> AppError + CommissionCalculation" where
  "calculateCommission env rules orderItem paymentFeePercentArg campaignId =
     (case findApplicableCommissionRule env rules orderItem campaignId of
        Inl e \<Rightarrow> Inl e
      | Inr rule \<Rightarrow>
         (let paymentFeePercent =
                (case paymentFeePercentArg of None \<Rightarrow> defaultPaymentFeePercent | Some p \<Rightarrow> p);
              subtotal = item_subtotal orderItem;
              platformFee = platformFeeOf rule subtotal;
              creatorCommission = cappedCommission rule subtotal;
              paymentFee = paymentFeeOf paymentFeePercent subtotal;
              sellerTake = subtotal - platformFee - creatorCommission - paymentFee;
              creatorCommission' =
                (if sellerTake < 0
                 then (let c = subtotal - platformFee - paymentFee in if c < 0 then 0 else c)
                 else creatorCommission)
          in Inr \<lparr> calc_orderItemId = item_id orderItem,
                   calc_subtotal = subtotal,
                   calc_platformFee = platformFee,
                   calc_creatorCommission = creatorCommission',
                   calc_paymentFee = paymentFee,
                   calc_sellerTake = (if sellerTake < 0 then 0 else sellerTake),
                   calc_currency = order_currency (item_order orderItem),
                   calc_appliedRuleId = rule_id rule,
                   calc_appliedRuleType = rule_type rule \<rparr>))"

section \<open>The ledger\<close>

text \<open>
  A metadata value is a JSON string; \<open>JIsoDate t\<close> stands for the string
  \<^verbatim>\<open>new Date(t).toISOString()\<close>. A metadata object is the list of its properties in
  insertion order, and \<^verbatim>\<open>{ ...m, k: v }\<close> is \<open>AList.update k v m\<close>.
\<close>

datatype JsonValue = JString string | JIsoDate timestamp

type_synonym metadata = "(string \<times> JsonValue) list"

record LedgerEntryRequest =
  req_organizationId :: string
  req_orderId :: string
  req_orderItemId :: "string option"
  req_payoutId :: "string option"
  req_entryType :: LedgerEntryType
  req_amount :: decimal
  req_currency :: string
  req_description :: "string option"
  req_status :: LedgerEntryStatus
  req_metadata :: metadata

record LedgerEntry =
  le_id :: string
  le_organizationId :: string
  le_orderId :: string
  le_orderItemId :: "string option"
  le_payoutId :: "string option"
  le_entryType :: LedgerEntryType
  le_amount :: decimal
  le_currency :: string
  le_description :: "string option"
  le_status :: LedgerEntryStatus
  le_metadata :: metadata
  le_createdAt :: timestamp
  le_clearedAt :: "timestamp option"
  le_paidAt :: "timestamp option"

text \<open>The decimal digits of a number, for \<^verbatim>\<open>`calc_${Date.now()}`\<close>.\<close>

fun decimalString :: "nat \<Rightarrow> string" where
  "decimalString n =
     (if n < 10 then [''0123456789'' ! n]
      else decimalString (n div 10) @ [''0123456789'' ! (n mod 10)])"

declare decimalString.simps [simp del]

definition timestampString :: "timestamp \<Rightarrow> string" where
  "timestampString t =
     (if t < 0 then CHR ''-'' # decimalString (nat (- t)) else decimalString (nat t))"

definition ruleTypeName :: "CommissionRuleType \<Rightarrow> string" where
  "ruleTypeName ty =
     (case ty of CAMPAIGN \<Rightarrow> ''CAMPAIGN'' | SKU \<Rightarrow> ''SKU''
               | PRODUCT \<Rightarrow> ''PRODUCT'' | DEFAULT \<Rightarrow> ''DEFAULT'')"

subsection \<open>Database writes\<close>

text \<open>
  \<^verbatim>\<open>ledgerEntry.create\<close> as the \<open>k\<close>-th write of an operation: the database rejects
  the statement when \<open>env_writeOk\<close> says so or when the new id is already a primary
  key; otherwise the row is appended, with the id and the creation time the database
  assigns and no clearing or payment time.
\<close>

definition createRow ::
  "Env \<Rightarrow> nat \<Rightarrow> LedgerEntryRequest \<Rightarrow> LedgerEntry list
     \<Rightarrow> (LedgerEntry \<times> LedgerEntry list) option" where
  "createRow env k req store =
     (if env_writeOk env k \<and> env_newId env k \<notin> set (map le_id store)
      then (let row = \<lparr> le_id = env_newId env k,
                         le_organizationId = req_organizationId req,
                         le_orderId = req_orderId req,
                         le_orderItemId = req_orderItemId req,
                         le_payoutId = req_payoutId req,
                         le_entryType = req_entryType req,
                         le_amount = req_amount req,
                         le_currency = req_currency req,
                         le_description = req_description req,
                         le_status = req_status req,
                         le_metadata = req_metadata req,
                         le_createdAt = env_createdAt env k,
                         le_clearedAt = None,
                         le_paidAt = None \<rparr>
            in Some (row, store @ [row]))
      else None)"

text \<open>
  \<^verbatim>\<open>ledgerEntry.update({ where: { id }, data })\<close>: the row with that id is replaced
  by its update and returned; the statement fails when there is no such row.
\<close>

fun updateRow ::
  "string \<Rightarrow> (LedgerEntry \<Rightarrow> LedgerEntry) \<Rightarrow> LedgerEntry list
     \<Rightarrow> (LedgerEntry \<times> LedgerEntry list) option" where
  "updateRow i f [] = None"
| "updateRow i f (e # s) =
     (if le_id e = i then Some (f e, f e # s)
      else (case updateRow i f s of
              None \<Rightarrow> None
            | Some (e', s') \<Rightarrow> Some (e', e # s')))"

text \<open>
  \<^verbatim>\<open>$transaction([u0, u1, ...])\<close> over update statements: they run in order, the
  \<open>j\<close>-th being write \<open>k + j\<close> of the operation; the result is the list of updated
  rows and the new table, or \<open>None\<close> when a statement fails, and then the caller keeps
  the table it had (the transaction is rolled back).
\<close>

fun transactionUpdates ::
  "(nat \<Rightarrow> bool) \<Rightarrow> nat \<Rightarrow> (string \<times> (LedgerEntry \<Rightarrow> LedgerEntry)) list \<Rightarrow> LedgerEntry list
     \<Rightarrow> (LedgerEntry list \<times> LedgerEntry list) option" where
  "transactionUpdates ok k [] store = Some ([], store)"
| "transactionUpdates ok k ((i, f) # us) store =
     (if ok k
      then (case updateRow i f store of
              None \<Rightarrow> None
            | Some (e, store1) \<Rightarrow>
               (case transactionUpdates ok (Suc k) us store1 of
                  None \<Rightarrow> None
                | Some (es, store2) \<Rightarrow> Some (e # es, store2)))
      else None)"

subsection \<open>Creating the entries of a split\<close>

definition splitMetadata :: "Env \<Rightarrow> nat \<Rightarrow> CommissionCalculation \<Rightarrow> metadata" where
  "splitMetadata env k calculation =
     [(''calculationId'', JString (''calc_'' @ timestampString (env_now env k))),
      (''appliedRuleId'', JString (calc_appliedRuleId calculation)),
      (''appliedRuleType'', JString (ruleTypeName (calc_appliedRuleType calculation)))]"

definition splitRequest ::
  "Order \<Rightarrow> CommissionCalculation \<Rightarrow> LedgerEntryType \<Rightarrow> decimal \<Rightarrow> string \<Rightarrow> metadata
     \<Rightarrow> LedgerEntryRequest" where
  "splitRequest order calculation entryType amount description md =
     \<lparr> req_organizationId = order_organizationId order,
       req_orderId = order_id order,
       req_orderItemId = Some (calc_orderItemId calculation),
       req_payoutId = None,
       req_entryType = entryType,
       req_amount = amount,
       req_currency = calc_currency calculation,
       req_description = Some (description @ calc_orderItemId calculation),
       req_status = RESERVED,
       req_metadata = md \<rparr>"

text \<open>
  \<^verbatim>\<open>createLedgerEntries\<close>: four \<^verbatim>\<open>create\<close> statements inside one interactive
  transaction. An operation returns its result and the table it leaves behind.
\<close>

definition createLedgerEntries ::
  "Env \<Rightarrow> LedgerEntry list \<Rightarrow> CommissionCalculation \<Rightarrow> Order \<Rightarrow> string
     \<Rightarrow> (AppError + LedgerEntry list) \<times> LedgerEntry list" where
  "createLedgerEntries env store calculation order creatorId =
     (case
        (case createRow env 0
                (splitRequest order calculation SALE (calc_subtotal calculation)
                   ''Sale revenue for order item '' (splitMetadata env 0 calculation)) store of
           None \<Rightarrow> None
         | Some (saleEntry, s1) \<Rightarrow>
        (case createRow env 1
                (splitRequest order calculation PLATFORM_FEE (calc_platformFee calculation)
                   ''Platform fee for order item '' (splitMetadata env 1 calculation)) s1 of
           None \<Rightarrow> None
         | Some (platformFeeEntry, s2) \<Rightarrow>
        (case createRow env 2
                (splitRequest order calculation COMMISSION (calc_creatorCommission calculation)
                   ''Creator commission for order item ''
                   (splitMetadata env 2 calculation @ [(''creatorId'', JString creatorId)])) s2 of
           None \<Rightarrow> None
         | Some (commissionEntry, s3) \<Rightarrow>
        (case createRow env 3
                (splitRequest order calculation PAYMENT_FEE (calc_paymentFee calculation)
                   ''Payment processing fee for order item ''
                   (splitMetadata env 3 calculation)) s3 of
           None \<Rightarrow> None
         | Some (paymentFeeEntry, s4) \<Rightarrow>
             Some ([saleEntry, platformFeeEntry, commissionEntry, paymentFeeEntry], s4))))) of
        None \<Rightarrow> (Inl (InternalServerError ''LEDGER_ENTRY_CREATION_FAILED''), store)
      | Some (entries, store') \<Rightarrow> (Inr entries, store'))"

subsection \<open>Clearing, cancelling, paying\<close>

text \<open>
  The \<^verbatim>\<open>where\<close> clauses \<^verbatim>\<open>{ orderId, status: RESERVED }\<close> and
  \<^verbatim>\<open>{ orderId, status: { notIn: [CANCELLED] } }\<close>.
\<close>

definition reservedWhere :: "string \<Rightarrow> LedgerEntry \<Rightarrow> bool" where
  "reservedWhere orderId e = (le_orderId e = orderId \<and> le_status e = RESERVED)"

definition notCancelledWhere :: "string \<Rightarrow> LedgerEntry \<Rightarrow> bool" where
  "notCancelledWhere orderId e = (le_orderId e = orderId \<and> le_status e \<notin> set [CANCELLED])"

text \<open>
  The \<^verbatim>\<open>data\<close> of the three updates, applied to the row the statement addresses.
  \<open>t\<close> is the clock reading taken when the update is built; the cancellation writes
  the metadata of the entry as it was selected, extended by the reason and the time.
\<close>

definition clearedData :: "timestamp \<Rightarrow> LedgerEntry \<Rightarrow> LedgerEntry" where
  "clearedData t row = row\<lparr> le_status := CLEARED, le_clearedAt := Some t \<rparr>"

definition cancelledData :: "string \<Rightarrow> timestamp \<Rightarrow> LedgerEntry \<Rightarrow> LedgerEntry \<Rightarrow> LedgerEntry" where
  "cancelledData reason t entry row =
     row\<lparr> le_status := CANCELLED,
          le_metadata :=
            AList.update ''cancelledAt'' (JIsoDate t)
              (AList.update ''cancellationReason'' (JString reason) (le_metadata entry)) \<rparr>"

definition paidData :: "string \<Rightarrow> timestamp \<Rightarrow> LedgerEntry \<Rightarrow> LedgerEntry" where
  "paidData payoutId t row =
     row\<lparr> le_status := PAID, le_payoutId := Some payoutId, le_paidAt := Some t \<rparr>"

text \<open>
  \<^verbatim>\<open>clearLedgerEntries\<close>: the update of the \<open>k\<close>-th selected entry is built by the
  \<open>k\<close>-th call of the \<^verbatim>\<open>map\<close> callback, which evaluates \<^verbatim>\<open>new Date()\<close> itself.
\<close>

definition clearLedgerEntries ::
  "Env \<Rightarrow> LedgerEntry list \<Rightarrow> string \<Rightarrow> (AppError + LedgerEntry list) \<times> LedgerEntry list" where
  "clearLedgerEntries env store orderId =
     (let reservedEntries = filter (reservedWhere orderId) store
      in if length reservedEntries = 0 then (Inr [], store)
         else
          (case transactionUpdates (env_writeOk env) 0
                  (map (\<lambda>(k, entry). (le_id entry, clearedData (env_now env k)))
                       (enumerate 0 reservedEntries))
                  store of
             None \<Rightarrow> (Inl (InternalServerError ''LEDGER_ENTRY_CLEARING_FAILED''), store)
           | Some (clearedEntries, store') \<Rightarrow> (Inr clearedEntries, store')))"

definition cancelLedgerEntries ::
  "Env \<Rightarrow> LedgerEntry list \<Rightarrow> string \<Rightarrow> string
     \<Rightarrow> (AppError + LedgerEntry list) \<times> LedgerEntry list" where
  "cancelLedgerEntries env store orderId reason =
     (let activeEntries = filter (notCancelledWhere orderId) store
      in if length activeEntries = 0 then (Inr [], store)
         else
          (case transactionUpdates (env_writeOk env) 0
                  (map (\<lambda>(k, entry). (le_id entry, cancelledData reason (env_now env k) entry))
                       (enumerate 0 activeEntries))
                  store of
             None \<Rightarrow> (Inl (InternalServerError ''LEDGER_ENTRY_CANCELLATION_FAILED''), store)
           | Some (cancelledEntries, store') \<Rightarrow> (Inr cancelledEntries, store')))"

definition markCommissionsAsPaid ::
  "Env \<Rightarrow> LedgerEntry list \<Rightarrow> string list \<Rightarrow> string
     \<Rightarrow> (AppError + LedgerEntry list) \<times> LedgerEntry list" where
  "markCommissionsAsPaid env store commissionIds payoutId =
     (case transactionUpdates (env_writeOk env) 0
             (map (\<lambda>(k, i). (i, paidData payoutId (env_now env k)))
                  (enumerate 0 commissionIds))
             store of
        None \<Rightarrow> (Inl (InternalServerError ''COMMISSION_PAYMENT_UPDATE_FAILED''), store)
      | Some (paidEntries, store') \<Rightarrow> (Inr paidEntries, store'))"

subsection \<open>Reconciliation\<close>






subsection \<open>Notions used to state the properties\<close>

text \<open>
  The table after a select-then-update operation that went through: the \<open>j\<close>-th
  selected row (counted from \<open>k\<close>) is replaced by \<open>g j\<close> of it, every other row is
  kept.
\<close>

fun selectThenUpdate ::
  "(LedgerEntry \<Rightarrow> bool) \<Rightarrow> (nat \<Rightarrow> LedgerEntry \<Rightarrow> LedgerEntry) \<Rightarrow> nat \<Rightarrow> LedgerEntry list
     \<Rightarrow> LedgerEntry list" where
  "selectThenUpdate P g k [] = []"
| "selectThenUpdate P g k (e # s) =
     (if P e then g k e # selectThenUpdate P g (Suc k) s
      else e # selectThenUpdate P g k s)"

text \<open>
  Two versions of a row agree on everything but the status, the clearing and payment
  times, the payout link and the metadata.
\<close>

definition sameLedgerFacts :: "LedgerEntry \<Rightarrow> LedgerEntry \<Rightarrow> bool" where
  "sameLedgerFacts e e' =
     (le_id e' = le_id e \<and> le_organizationId e' = le_organizationId e \<and>
      le_orderId e' = le_orderId e \<and> le_orderItemId e' = le_orderItemId e \<and>
      le_entryType e' = le_entryType e \<and> le_amount e' = le_amount e \<and>
      le_currency e' = le_currency e \<and> le_description e' = le_description e \<and>
      le_createdAt e' = le_createdAt e)"

section \<open>Example data\<close>

definition exampleOrder :: Order where
  "exampleOrder =
     \<lparr> order_id = ''order1'', order_organizationId = ''org1'', order_currency = ''USD'' \<rparr>"

definition exampleItem :: "decimal \<Rightarrow> OrderItem" where
  "exampleItem subtotal =
     \<lparr> item_id = ''item1'', item_skuId = ''sku1'', item_subtotal = subtotal,
       item_order = exampleOrder, item_sku_productId = ''prod1'' \<rparr>"

text \<open>
  An active rule of organization \<open>org1\<close>, valid from time 0 to time 5000, scoped to
  campaign \<open>camp1\<close>, SKU \<open>sku1\<close> or product \<open>prod1\<close> according to its type.
\<close>

definition exampleRule ::
  "string \<Rightarrow> CommissionRuleType \<Rightarrow> decimal \<Rightarrow> decimal \<Rightarrow> decimal option \<Rightarrow> decimal option
     \<Rightarrow> CommissionRule" where
  "exampleRule rid ty platformPct creatorPct minC maxC =
     \<lparr> rule_id = rid, rule_organizationId = ''org1'', rule_type = ty,
       rule_campaignId = (if ty = CAMPAIGN then Some ''camp1'' else None),
       rule_skuId = (if ty = SKU then Some ''sku1'' else None),
       rule_productId = (if ty = PRODUCT then Some ''prod1'' else None),
       rule_isActive = True, rule_startDate = Some 0, rule_endDate = Some 5000,
       rule_creatorPercent = creatorPct, rule_platformFeePercent = platformPct,
       rule_minCommission = minC, rule_maxCommission = maxC \<rparr>"

text \<open>
  A clock that advances by one millisecond from one reading to the next, and a
  database that accepts every write.
\<close>

definition exampleEnv :: Env where
  "exampleEnv =
     \<lparr> env_now = (\<lambda>k. 1000 + int k),
       env_newId = (\<lambda>k. replicate (Suc k) CHR ''n''),
       env_createdAt = (\<lambda>k. 2000 + int k),
       env_writeOk = (\<lambda>k. True) \<rparr>"

definition exampleEntry ::
  "string \<Rightarrow> LedgerEntryType \<Rightarrow> decimal \<Rightarrow> LedgerEntryStatus \<Rightarrow> LedgerEntry" where
  "exampleEntry eid ty amount status =
     \<lparr> le_id = eid, le_organizationId = ''org1'', le_orderId = ''order1'',
       le_orderItemId = Some ''item1'', le_payoutId = None, le_entryType = ty,
       le_amount = amount, le_currency = ''USD'', le_description = None,
       le_status = status, le_metadata = [], le_createdAt = 500,
       le_clearedAt = None, le_paidAt = None \<rparr>"

definition exampleCalculation :: CommissionCalculation where
  "exampleCalculation =
     \<lparr> calc_orderItemId = ''item1'', calc_subtotal = 100, calc_platformFee = 5,
       calc_creatorCommission = 10, calc_paymentFee = 29 / 10, calc_sellerTake = 821 / 10,
       calc_currency = ''USD'', calc_appliedRuleId = ''r1'', calc_appliedRuleType = DEFAULT \<rparr>"

text \<open>
  A ledger of order \<open>order1\<close>: a reserved sale, a reserved commission, a paid
  commission and a cancelled commission.
\<close>

definition exampleStore :: "LedgerEntry list" where
  "exampleStore =
     [exampleEntry ''e1'' SALE 100 RESERVED,
      exampleEntry ''e2'' COMMISSION 10 RESERVED,
      exampleEntry ''e3'' COMMISSION 7 PAID,
      exampleEntry ''e4'' COMMISSION 5 CANCELLED]"


text \<open>An inactive product rule and a default rule that expired at time 900.\<close>

definition staleRules :: "CommissionRule list" where
  "staleRules =
     [(exampleRule ''r4'' PRODUCT 5 10 None None) \<lparr> rule_isActive := False \<rparr>,
      (exampleRule ''r5'' DEFAULT 5 10 None None) \<lparr> rule_endDate := Some 900 \<rparr>]"

section \<open>Properties of rule resolution\<close>

lemmas example_defs = exampleOrder_def exampleItem_def exampleRule_def exampleEnv_def
  exampleEntry_def exampleCalculation_def


lemma exampleRule_resolves:
  "findApplicableCommissionRule exampleEnv [exampleRule ''r1'' DEFAULT pf cp mn mx]
       (exampleItem s) None
     = Inr (exampleRule ''r1'' DEFAULT pf cp mn mx)"
  by (simp add: example_defs findApplicableCommissionRule_def truthy_def skuWhere_def
        productWhere_def defaultWhere_def dateWindow_def)



text \<open>
  Claim C8. When no rule of the table satisfies the query of any tier at any two
  consecutive clock readings of the call, the resolver fails with the NotFound error
  \<^verbatim>\<open>COMMISSION_RULE_NOT_FOUND\<close>; it returns no rule, and \<^verbatim>\<open>calculateCommission\<close> for the
  order item fails with the same error instead of returning a split.
\<close>

theorem findApplicableCommissionRule_not_found:
  "(\<forall>r\<in>set rules. \<forall>j.
      \<not> matchesSomeTier orderItem campaignId (env_now env j) (env_now env (Suc j)) r) \<Longrightarrow>
   findApplicableCommissionRule env rules orderItem campaignId
     = Inl (NotFoundError ''COMMISSION_RULE_NOT_FOUND'') \<and>
   calculateCommission env rules orderItem paymentFeePercent campaignId
     = Inl (NotFoundError ''COMMISSION_RULE_NOT_FOUND'')"
proof -
  assume h: "\<forall>r\<in>set rules. \<forall>j.
      \<not> matchesSomeTier orderItem campaignId (env_now env j) (env_now env (Suc j)) r"
  let ?org = "order_organizationId (item_order orderItem)"
  have k: "\<not> matchesSomeTier orderItem campaignId (env_now env j) (env_now env (Suc j)) r"
    if "r \<in> set rules" for r j using h that by blast
  have c: "find (campaignWhere ?org campaignId (env_now env a) (env_now env b)) rules = None"
    if "truthy campaignId" "b = Suc a" for a b
    using k [of _ a] that by (auto simp add: find_None_iff matchesSomeTier_def Let_def)
  have s: "find (skuWhere ?org (item_skuId orderItem) (env_now env a) (env_now env b)) rules
             = None"
    if "b = Suc a" for a b
    using k [of _ a] that by (auto simp add: find_None_iff matchesSomeTier_def Let_def)
  have p: "find (productWhere ?org (item_sku_productId orderItem) (env_now env a) (env_now env b))
             rules = None"
    if "b = Suc a" for a b
    using k [of _ a] that by (auto simp add: find_None_iff matchesSomeTier_def Let_def)
  have d: "find (defaultWhere ?org (env_now env a) (env_now env b)) rules = None"
    if "b = Suc a" for a b
    using k [of _ a] that by (auto simp add: find_None_iff matchesSomeTier_def Let_def)
  have f: "findApplicableCommissionRule env rules orderItem campaignId
     = Inl (NotFoundError ''COMMISSION_RULE_NOT_FOUND'')"
    by (cases "truthy campaignId")
       (simp_all add: findApplicableCommissionRule_def Let_def c s p d)
  then show ?thesis by (simp add: calculateCommission_def)
qed

theorem findApplicableCommissionRule_not_found_witness:
  "findApplicableCommissionRule exampleEnv staleRules (exampleItem 100) (Some ''camp1'')
     = Inl (NotFoundError ''COMMISSION_RULE_NOT_FOUND'') \<and>
   calculateCommission exampleEnv staleRules (exampleItem 100) None (Some ''camp1'')
     = Inl (NotFoundError ''COMMISSION_RULE_NOT_FOUND'')"
proof -
  have "\<forall>r\<in>set staleRules. \<forall>j.
     \<not> matchesSomeTier (exampleItem 100) (Some ''camp1'')
         (env_now exampleEnv j) (env_now exampleEnv (Suc j)) r"
    by (simp add: staleRules_def matchesSomeTier_def example_defs campaignWhere_def skuWhere_def
          productWhere_def defaultWhere_def dateWindow_def Let_def)
  from findApplicableCommissionRule_not_found [OF this] show ?thesis .
qed

section \<open>Properties of the commission calculation\<close>

text \<open>
  Leaving \<^verbatim>\<open>paymentFeePercent\<close> out is passing 0.029, so the statements below, made for
  an explicit percentage, cover the default as well.
\<close>

lemma calculateCommission_default:
  "calculateCommission env rules orderItem None campaignId
     = calculateCommission env rules orderItem (Some defaultPaymentFeePercent) campaignId"
  by (cases "findApplicableCommissionRule env rules orderItem campaignId")
     (simp_all add: calculateCommission_def Let_def)



text \<open>
  Claim C10. The minimum commission is not applied again after the adjustment for a
  negative seller take: when the rule has a positive \<^verbatim>\<open>minCommission\<close> that exceeds
  \<open>subtotal - platformFee - paymentFee\<close> and the seller take computed with the capped
  commission is negative, the returned creator commission is strictly below
  \<^verbatim>\<open>minCommission\<close>.
\<close>

theorem calculateCommission_below_minCommission:
  "findApplicableCommissionRule env rules orderItem campaignId = Inr rule \<Longrightarrow>
   rule_minCommission rule = Some m \<Longrightarrow> 0 < m \<Longrightarrow>
   item_subtotal orderItem - platformFeeOf rule (item_subtotal orderItem)
      - paymentFeeOf p (item_subtotal orderItem) < m \<Longrightarrow>
   naiveSellerTake rule p (item_subtotal orderItem) < 0 \<Longrightarrow>
   \<exists>c. calculateCommission env rules orderItem (Some p) campaignId = Inr c \<and>
       calc_creatorCommission c < m"
  by (auto simp add: calculateCommission_def naiveSellerTake_def Let_def)

theorem calculateCommission_below_minCommission_witness:
  "rule_minCommission (exampleRule ''r1'' DEFAULT 5 10 (Some 20) None) = Some 20 \<and>
   (\<exists>c. calculateCommission exampleEnv [exampleRule ''r1'' DEFAULT 5 10 (Some 20) None]
          (exampleItem 10) (Some (29 / 1000)) None = Inr c \<and>
        calc_creatorCommission c < 20)"
proof -
  have a: "findApplicableCommissionRule exampleEnv
       [exampleRule ''r1'' DEFAULT 5 10 (Some 20) None] (exampleItem 10) None
     = Inr (exampleRule ''r1'' DEFAULT 5 10 (Some 20) None)"
    by (rule exampleRule_resolves)
  have b: "rule_minCommission (exampleRule ''r1'' DEFAULT 5 10 (Some 20) None) = Some 20"
    by (simp add: exampleRule_def)
  have c: "item_subtotal (exampleItem 10)
      - platformFeeOf (exampleRule ''r1'' DEFAULT 5 10 (Some 20) None)
          (item_subtotal (exampleItem 10))
      - paymentFeeOf (29 / 1000) (item_subtotal (exampleItem 10)) < 20"
    by (simp add: example_defs platformFeeOf_def paymentFeeOf_def)
  have d: "naiveSellerTake (exampleRule ''r1'' DEFAULT 5 10 (Some 20) None) (29 / 1000)
       (item_subtotal (exampleItem 10)) < 0"
    by (simp add: example_defs naiveSellerTake_def platformFeeOf_def cappedCommission_def
          paymentFeeOf_def)
  show ?thesis using calculateCommission_below_minCommission [OF a b _ c d] b by simp
qed




section \<open>Properties of the ledger operations\<close>

subsection \<open>Updates inside a transaction\<close>

lemma updateRow_rel:
  "updateRow i f s = Some (e, s') \<Longrightarrow> (\<And>x. R x x) \<Longrightarrow> (\<And>x. R x (f x)) \<Longrightarrow> list_all2 R s s'"
proof (induction s arbitrary: e s')
  case Nil
  then show ?case by simp
next
  case (Cons h s)
  show ?case
  proof (cases "le_id h = i")
    case True
    with Cons.prems show ?thesis by (auto intro: list_all2_refl)
  next
    case False
    with Cons.prems(1) obtain s1 where "updateRow i f s = Some (e, s1)" "s' = h # s1"
      by (auto split: option.splits)
    with Cons.IH [of e s1] Cons.prems(2,3) show ?thesis by simp
  qed
qed

lemma transactionUpdates_rel:
  assumes "\<And>x. R x x" and "\<And>x y z. R x y \<Longrightarrow> R y z \<Longrightarrow> R x z"
  shows "transactionUpdates ok k us s = Some (es, s') \<Longrightarrow>
         (\<And>i f x. (i, f) \<in> set us \<Longrightarrow> R x (f x)) \<Longrightarrow> list_all2 R s s'"
proof (induction us arbitrary: k s es s')
  case Nil
  then show ?case using assms(1) by (simp add: list_all2_refl)
next
  case (Cons u us)
  obtain i f where u: "u = (i, f)" by (cases u)
  from Cons.prems(1) u obtain e s1 es1 where
    a: "updateRow i f s = Some (e, s1)" and
    b: "transactionUpdates ok (Suc k) us s1 = Some (es1, s')"
    by (auto split: if_splits option.splits)
  have "list_all2 R s s1"
    using a assms(1) Cons.prems(2) [of i f] u by (auto intro: updateRow_rel)
  moreover have "list_all2 R s1 s'"
    using Cons.IH [OF b] Cons.prems(2) by auto
  ultimately show ?case
    using assms(2) by (rule list_all2_trans [rotated])
qed

lemma updateRow_skip:
  "le_id h \<noteq> i \<Longrightarrow>
   updateRow i f (h # s) = map_option (\<lambda>(e, s'). (e, h # s')) (updateRow i f s)"
  by (simp split: option.splits)

lemma transactionUpdates_skip:
  "(\<forall>u\<in>set us. fst u \<noteq> le_id h) \<Longrightarrow>
   transactionUpdates ok k us (h # s)
     = map_option (\<lambda>(es, s'). (es, h # s')) (transactionUpdates ok k us s)"
proof (induction us arbitrary: k s)
  case Nil
  then show ?case by simp
next
  case (Cons u us)
  obtain i f where u: "u = (i, f)" by (cases u)
  with Cons.prems have ne: "le_id h \<noteq> i" and rest: "\<forall>u\<in>set us. fst u \<noteq> le_id h"
    by auto
  show ?case
    unfolding u
    by (simp add: ne Cons.IH [OF rest] split: option.splits del: updateRow.simps add: updateRow_skip [OF ne])
qed

lemma all_less_Suc_shift:
  "(\<forall>j<Suc n. Q (k + j)) = (Q k \<and> (\<forall>j<n. Q (Suc k + j)))"
proof
  assume a: "\<forall>j<Suc n. Q (k + j)"
  then have "Q k" by (metis add.right_neutral zero_less_Suc)
  moreover have "Q (Suc k + j)" if "j < n" for j
    using a that by (metis Suc_less_eq add_Suc_shift)
  ultimately show "Q k \<and> (\<forall>j<n. Q (Suc k + j))" by blast
next
  assume a: "Q k \<and> (\<forall>j<n. Q (Suc k + j))"
  show "\<forall>j<Suc n. Q (k + j)"
  proof (intro allI impI)
    fix j assume "j < Suc n"
    then show "Q (k + j)" using a by (cases j) auto
  qed
qed

lemma map_fst_enumerate_updates:
  "map fst (map (\<lambda>(j, e). (f e, G j e)) (enumerate k xs)) = map f xs"
  by (induction xs arbitrary: k) auto

lemma transactionUpdates_select:
  assumes G: "\<And>j e x. le_id (G j e x) = le_id x"
  shows "distinct (map le_id s) \<Longrightarrow>
     transactionUpdates ok k (map (\<lambda>(j, e). (le_id e, G j e)) (enumerate k (filter P s))) s
       = (if \<forall>j<length (filter P s). ok (k + j)
          then Some (map (\<lambda>(j, e). G j e e) (enumerate k (filter P s)),
                     selectThenUpdate P (\<lambda>j e. G j e e) k s)
          else None)"
proof (induction s arbitrary: k)
  case Nil
  then show ?case by simp
next
  case (Cons h s)
  from Cons.prems have d: "distinct (map le_id s)" and nh: "le_id h \<notin> le_id ` set s"
    by auto
  have ids: "fst ` set (map (\<lambda>(j, e). (le_id e, G j e)) (enumerate k' (filter P s)))
               = le_id ` set (filter P s)" for k'
  proof -
    have "set (map fst (map (\<lambda>(j, e). (le_id e, G j e)) (enumerate k' (filter P s))))
            = set (map le_id (filter P s))"
      by (simp only: map_fst_enumerate_updates)
    then show ?thesis by (simp only: set_map)
  qed
  have other: "\<forall>u\<in>set (map (\<lambda>(j, e). (le_id e, G j e)) (enumerate k' (filter P s))).
                 fst u \<noteq> le_id x"
    if "le_id x = le_id h" for k' x
  proof
    fix u assume "u \<in> set (map (\<lambda>(j, e). (le_id e, G j e)) (enumerate k' (filter P s)))"
    then have "fst u \<in> fst ` set (map (\<lambda>(j, e). (le_id e, G j e)) (enumerate k' (filter P s)))"
      by (rule imageI)
    then have "fst u \<in> le_id ` set (filter P s)"
      by (simp only: ids)
    with nh that show "fst u \<noteq> le_id x" by auto
  qed
  let ?us = "\<lambda>k'. map (\<lambda>(j, e). (le_id e, G j e)) (enumerate k' (filter P s))"
  let ?n = "length (filter P s)"
  show ?case
  proof (cases "P h")
    case False
    have "transactionUpdates ok k (?us k) (h # s)
            = map_option (\<lambda>(es, s'). (es, h # s')) (transactionUpdates ok k (?us k) s)"
      by (rule transactionUpdates_skip [OF other]) simp
    also have "transactionUpdates ok k (?us k) s
            = (if \<forall>j<?n. ok (k + j)
               then Some (map (\<lambda>(j, e). G j e e) (enumerate k (filter P s)),
                          selectThenUpdate P (\<lambda>j e. G j e e) k s)
               else None)"
      by (rule Cons.IH [OF d])
    finally show ?thesis using False by simp
  next
    case True
    have idh: "le_id (G k h h) = le_id h" by (rule G)
    have sh: "(\<forall>j<Suc ?n. ok (k + j)) = (ok k \<and> (\<forall>j<?n. ok (Suc k + j)))"
      by (rule all_less_Suc_shift)
    have ih: "transactionUpdates ok (Suc k) (?us (Suc k)) s
            = (if \<forall>j<?n. ok (Suc k + j)
               then Some (map (\<lambda>(j, e). G j e e) (enumerate (Suc k) (filter P s)),
                          selectThenUpdate P (\<lambda>j e. G j e e) (Suc k) s)
               else None)"
      by (rule Cons.IH [OF d])
    have sk: "transactionUpdates ok (Suc k) (?us (Suc k)) (G k h h # s)
            = map_option (\<lambda>(es, s'). (es, G k h h # s'))
                (transactionUpdates ok (Suc k) (?us (Suc k)) s)"
      by (rule transactionUpdates_skip [OF other]) (rule idh)
    have "transactionUpdates ok k
            (map (\<lambda>(j, e). (le_id e, G j e)) (enumerate k (filter P (h # s)))) (h # s)
          = transactionUpdates ok k ((le_id h, G k h) # ?us (Suc k)) (h # s)"
      using True by simp
    also have "\<dots> = (if ok k
         then (case transactionUpdates ok (Suc k) (?us (Suc k)) (G k h h # s) of
                 None \<Rightarrow> None
               | Some (es, store2) \<Rightarrow> Some (G k h h # es, store2))
         else None)"
      by simp
    also have "\<dots> = (if \<forall>j<length (filter P (h # s)). ok (k + j)
          then Some (map (\<lambda>(j, e). G j e e) (enumerate k (filter P (h # s))),
                     selectThenUpdate P (\<lambda>j e. G j e e) k (h # s))
          else None)"
      unfolding sk ih using True sh by simp
    finally show ?thesis .
  qed
qed

lemma selectThenUpdate_length [simp]: "length (selectThenUpdate P g k s) = length s"
  by (induction s arbitrary: k) auto

lemma selectThenUpdate_nth:
  "i < length s \<Longrightarrow>
   selectThenUpdate P g k s ! i
     = (if P (s ! i) then g (k + length (filter P (take i s))) (s ! i) else s ! i)"
proof (induction s arbitrary: k i)
  case Nil
  then show ?case by simp
next
  case (Cons h s)
  show ?case
  proof (cases i)
    case 0
    then show ?thesis by simp
  next
    case (Suc i')
    with Cons.prems have "i' < length s" by simp
    from Cons.IH [OF this] Suc show ?thesis by simp
  qed
qed

lemma selectThenUpdate_rel:
  "(\<And>e. R e e) \<Longrightarrow> (\<And>j e. P e \<Longrightarrow> R e (g j e)) \<Longrightarrow>
   list_all2 R s (selectThenUpdate P g k s)"
  by (induction s arbitrary: k) auto

lemma selectThenUpdate_all:
  "(\<And>e. \<not> P e \<Longrightarrow> R e e) \<Longrightarrow> (\<And>j e. P e \<Longrightarrow> R e (g j e)) \<Longrightarrow>
   list_all2 R s (selectThenUpdate P g k s)"
  by (induction s arbitrary: k) auto

lemma updateRow_exact:
  "distinct (map le_id s) \<Longrightarrow> updateRow i f s = Some (e, s1) \<Longrightarrow>
   s1 = map (\<lambda>x. if le_id x = i then f x else x) s"
proof (induction s arbitrary: e s1)
  case Nil
  then show ?case by simp
next
  case (Cons h s)
  show ?case
  proof (cases "le_id h = i")
    case True
    from Cons.prems(1) have "le_id h \<notin> le_id ` set s" by simp
    with True have "\<forall>x\<in>set s. le_id x \<noteq> i" by blast
    then have "map (\<lambda>x. if le_id x = i then f x else x) s = s"
      by (simp add: map_idI)
    with True Cons.prems(2) show ?thesis by auto
  next
    case False
    with Cons.prems(2) obtain s2 where "updateRow i f s = Some (e, s2)" "s1 = h # s2"
      by (auto split: option.splits)
    with Cons.IH [of e s2] Cons.prems(1) False show ?thesis by simp
  qed
qed

lemma updateRow_ids:
  "(\<And>x. le_id (f x) = le_id x) \<Longrightarrow> updateRow i f s = Some (e, s1) \<Longrightarrow>
   map le_id s1 = map le_id s"
proof (induction s arbitrary: e s1)
  case Nil
  then show ?case by simp
next
  case (Cons h s)
  show ?case
  proof (cases "le_id h = i")
    case True
    with Cons.prems show ?thesis by auto
  next
    case False
    with Cons.prems(2) obtain s2 where "updateRow i f s = Some (e, s2)" "s1 = h # s2"
      by (auto split: option.splits)
    with Cons.IH [of e s2] Cons.prems(1) show ?thesis by simp
  qed
qed

lemma updateRow_None_iff: "(updateRow i f s = None) = (i \<notin> le_id ` set s)"
  by (induction s) (auto split: option.splits)

lemma transactionUpdates_marks:
  assumes idp: "\<And>i f x. (i, f) \<in> set us \<Longrightarrow> le_id (f x) = le_id x"
    and est: "\<And>i f x. (i, f) \<in> set us \<Longrightarrow> Q (f x)"
  shows "distinct (map le_id s) \<Longrightarrow> transactionUpdates ok k us s = Some (es, s') \<Longrightarrow>
     list_all2 (\<lambda>e e'. le_id e' = le_id e \<and> (if le_id e \<in> fst ` set us then Q e' else e' = e)) s s'"
  using idp est
proof (induction us arbitrary: k s es s')
  case Nil
  then show ?case by (simp add: list_all2_refl)
next
  case (Cons u us)
  obtain i f where u: "u = (i, f)" by (cases u)
  from Cons.prems(2) u obtain e s1 es1 where
    a: "updateRow i f s = Some (e, s1)" and
    b: "transactionUpdates ok (Suc k) us s1 = Some (es1, s')"
    by (auto split: if_splits option.splits)
  have fid: "le_id (f x) = le_id x" for x using Cons.prems(3) [of i f x] u by simp
  have fq: "Q (f x)" for x using Cons.prems(4) [of i f x] u by simp
  have s1: "s1 = map (\<lambda>x. if le_id x = i then f x else x) s"
    using Cons.prems(1) a by (rule updateRow_exact)
  have "map le_id s1 = map le_id s" using fid a by (rule updateRow_ids)
  with Cons.prems(1) have d1: "distinct (map le_id s1)" by simp
  have ih: "list_all2 (\<lambda>e e'. le_id e' = le_id e \<and>
              (if le_id e \<in> fst ` set us then Q e' else e' = e)) s1 s'"
    using d1 b
  proof (rule Cons.IH)
    fix j g x assume "(j, g) \<in> set us"
    then show "le_id (g x) = le_id x" using Cons.prems(3) [of j g x] by simp
  next
    fix j g x assume "(j, g) \<in> set us"
    then show "Q (g x)" using Cons.prems(4) [of j g x] by simp
  qed
  have "list_all2 (\<lambda>x e'. le_id e' = le_id (if le_id x = i then f x else x) \<and>
              (if le_id (if le_id x = i then f x else x) \<in> fst ` set us then Q e'
               else e' = (if le_id x = i then f x else x))) s s'"
    using ih unfolding s1 by (simp add: list_all2_map1)
  then show ?case
    unfolding u
    by (rule list_all2_mono) (auto simp add: fid fq split: if_splits)
qed

lemma transactionUpdates_succeeds:
  "(\<And>i f x. (i, f) \<in> set us \<Longrightarrow> le_id (f x) = le_id x) \<Longrightarrow>
   (transactionUpdates ok k us s \<noteq> None)
     = ((\<forall>j<length us. ok (k + j)) \<and> fst ` set us \<subseteq> le_id ` set s)"
proof (induction us arbitrary: k s)
  case Nil
  then show ?case by simp
next
  case (Cons u us)
  obtain i f where u: "u = (i, f)" by (cases u)
  have fid: "le_id (f x) = le_id x" for x using Cons.prems [of i f x] u by simp
  have sh: "(\<forall>j<Suc (length us). ok (k + j)) = (ok k \<and> (\<forall>j<length us. ok (Suc k + j)))"
    by (rule all_less_Suc_shift)
  show ?case
  proof (cases "updateRow i f s")
    case None
    then have "i \<notin> le_id ` set s" by (simp add: updateRow_None_iff)
    with None show ?thesis unfolding u by auto
  next
    case (Some r)
    obtain e s1 where r: "r = (e, s1)" by (cases r)
    from Some have mem: "i \<in> le_id ` set s"
      using updateRow_None_iff [of i f s] by auto
    have "map le_id s1 = map le_id s" using fid Some [unfolded r] by (rule updateRow_ids)
    then have same: "le_id ` set s1 = le_id ` set s" by (metis set_map)
    have ih: "(transactionUpdates ok (Suc k) us s1 \<noteq> None)
     = ((\<forall>j<length us. ok (Suc k + j)) \<and> fst ` set us \<subseteq> le_id ` set s1)"
      by (rule Cons.IH) (use Cons.prems in auto)
    show ?thesis
      unfolding u using Some r ih mem sh same
      by (auto split: option.splits)
  qed
qed

lemma exampleStore_distinct: "distinct (map le_id exampleStore)"
  by (simp add: exampleStore_def exampleEntry_def)

lemma exampleEnv_writeOk: "env_writeOk exampleEnv j"
  by (simp add: exampleEnv_def)

subsection \<open>Amounts and currencies are never rewritten\<close>

lemma sameLedgerFacts_refl: "sameLedgerFacts x x"
  by (simp add: sameLedgerFacts_def)

lemma sameLedgerFacts_trans: "sameLedgerFacts x y \<Longrightarrow> sameLedgerFacts y z \<Longrightarrow> sameLedgerFacts x z"
  by (simp add: sameLedgerFacts_def)

lemma transactionUpdates_frame:
  "transactionUpdates ok k us s = Some (es, s') \<Longrightarrow>
   (\<And>i f x. (i, f) \<in> set us \<Longrightarrow> sameLedgerFacts x (f x)) \<Longrightarrow>
   list_all2 sameLedgerFacts s s'"
  by (rule transactionUpdates_rel [of sameLedgerFacts, OF sameLedgerFacts_refl sameLedgerFacts_trans])

lemma list_all2_sameLedgerFacts_refl: "list_all2 sameLedgerFacts s s"
  by (rule list_all2_refl) (rule sameLedgerFacts_refl)

lemma clear_frame: "list_all2 sameLedgerFacts store (snd (clearLedgerEntries env store orderId))"
proof (cases "transactionUpdates (env_writeOk env) 0
                  (map (\<lambda>(k, entry). (le_id entry, clearedData (env_now env k)))
                       (enumerate 0 (filter (reservedWhere orderId) store))) store")
  case None
  then show ?thesis
    by (simp add: clearLedgerEntries_def Let_def list_all2_sameLedgerFacts_refl)
next
  case (Some r)
  obtain es s' where r: "r = (es, s')" by (cases r)
  have "list_all2 sameLedgerFacts store s'"
    using Some [unfolded r]
    by (rule transactionUpdates_frame) (auto simp add: sameLedgerFacts_def clearedData_def)
  with Some r show ?thesis
    by (simp add: clearLedgerEntries_def Let_def list_all2_sameLedgerFacts_refl)
qed

lemma cancel_frame:
  "list_all2 sameLedgerFacts store (snd (cancelLedgerEntries env store orderId reason))"
proof (cases "transactionUpdates (env_writeOk env) 0
                  (map (\<lambda>(k, entry). (le_id entry, cancelledData reason (env_now env k) entry))
                       (enumerate 0 (filter (notCancelledWhere orderId) store))) store")
  case None
  then show ?thesis
    by (simp add: cancelLedgerEntries_def Let_def list_all2_sameLedgerFacts_refl)
next
  case (Some r)
  obtain es s' where r: "r = (es, s')" by (cases r)
  have "list_all2 sameLedgerFacts store s'"
    using Some [unfolded r]
    by (rule transactionUpdates_frame) (auto simp add: sameLedgerFacts_def cancelledData_def)
  with Some r show ?thesis
    by (simp add: cancelLedgerEntries_def Let_def list_all2_sameLedgerFacts_refl)
qed

lemma paid_frame:
  "list_all2 sameLedgerFacts store (snd (markCommissionsAsPaid env store ids payoutId))"
proof (cases "transactionUpdates (env_writeOk env) 0
             (map (\<lambda>(k, i). (i, paidData payoutId (env_now env k))) (enumerate 0 ids)) store")
  case None
  then show ?thesis
    by (simp add: markCommissionsAsPaid_def list_all2_sameLedgerFacts_refl)
next
  case (Some r)
  obtain es s' where r: "r = (es, s')" by (cases r)
  have "list_all2 sameLedgerFacts store s'"
    using Some [unfolded r]
    by (rule transactionUpdates_frame) (auto simp add: sameLedgerFacts_def paidData_def)
  with Some r show ?thesis
    by (simp add: markCommissionsAsPaid_def)
qed

lemma frame_amounts:
  "list_all2 sameLedgerFacts s s' \<Longrightarrow>
   map le_amount s' = map le_amount s \<and> map le_currency s' = map le_currency s"
  by (induction s s' rule: list_all2_induct) (auto simp add: sameLedgerFacts_def)

text \<open>
  Claim C9. Amount and currency of a ledger entry are write-once. Whatever its
  outcome, each of \<^verbatim>\<open>clearLedgerEntries\<close>, \<^verbatim>\<open>cancelLedgerEntries\<close> and
  \<^verbatim>\<open>markCommissionsAsPaid\<close> leaves a table whose rows are, position by position, the
  rows it found with the same id, organization, order, order item, entry type,
  amount, currency, description and creation time: only status, clearing and payment
  time, payout link and metadata can differ. In particular the amounts and the
  currencies of the table are unchanged.
\<close>

theorem ledger_updates_keep_amount_and_currency:
  "list_all2 sameLedgerFacts store (snd (clearLedgerEntries env store orderId)) \<and>
   list_all2 sameLedgerFacts store (snd (cancelLedgerEntries env store orderId reason)) \<and>
   list_all2 sameLedgerFacts store (snd (markCommissionsAsPaid env store commissionIds payoutId)) \<and>
   map le_amount (snd (clearLedgerEntries env store orderId)) = map le_amount store \<and>
   map le_currency (snd (clearLedgerEntries env store orderId)) = map le_currency store \<and>
   map le_amount (snd (cancelLedgerEntries env store orderId reason)) = map le_amount store \<and>
   map le_currency (snd (cancelLedgerEntries env store orderId reason)) = map le_currency store \<and>
   map le_amount (snd (markCommissionsAsPaid env store commissionIds payoutId))
     = map le_amount store \<and>
   map le_currency (snd (markCommissionsAsPaid env store commissionIds payoutId))
     = map le_currency store"
  using clear_frame [of store env orderId] cancel_frame [of store env orderId reason]
    paid_frame [of store env commissionIds payoutId]
  by (simp add: frame_amounts)

theorem ledger_updates_keep_amount_and_currency_witness:
  "map le_amount (snd (markCommissionsAsPaid exampleEnv exampleStore [''e2'', ''e4''] ''p1''))
     = [100, 10, 7, 5] \<and>
   map le_currency (snd (cancelLedgerEntries exampleEnv exampleStore ''order1'' ''refund''))
     = [''USD'', ''USD'', ''USD'', ''USD'']"
proof -
  have a: "map le_amount exampleStore = [100, 10, 7, 5]"
    and b: "map le_currency exampleStore = [''USD'', ''USD'', ''USD'', ''USD'']"
    by (simp_all add: exampleStore_def exampleEntry_def)
  from ledger_updates_keep_amount_and_currency [of exampleStore exampleEnv "''order1''" "''refund''" "[''e2'', ''e4'']" "''p1''"] a b
  show ?thesis by simp
qed

subsection \<open>Clearing\<close>

lemma clear_result:
  assumes "distinct (map le_id store)"
  shows "clearLedgerEntries env store orderId =
     (if filter (reservedWhere orderId) store = [] then (Inr [], store)
      else if \<forall>j<length (filter (reservedWhere orderId) store). env_writeOk env j
      then (Inr (map (\<lambda>(j, e). clearedData (env_now env j) e)
                   (enumerate 0 (filter (reservedWhere orderId) store))),
            selectThenUpdate (reservedWhere orderId)
              (\<lambda>j e. clearedData (env_now env j) e) 0 store)
      else (Inl (InternalServerError ''LEDGER_ENTRY_CLEARING_FAILED''), store))"
proof -
  let ?G = "\<lambda>j (e::LedgerEntry). clearedData (env_now env j)"
  have sel: "transactionUpdates (env_writeOk env) 0
        (map (\<lambda>(j, e). (le_id e, clearedData (env_now env j)))
             (enumerate 0 (filter (reservedWhere orderId) store))) store
      = (if \<forall>j<length (filter (reservedWhere orderId) store). env_writeOk env (0 + j)
         then Some (map (\<lambda>(j, e). clearedData (env_now env j) e)
                      (enumerate 0 (filter (reservedWhere orderId) store)),
                    selectThenUpdate (reservedWhere orderId)
                      (\<lambda>j e. clearedData (env_now env j) e) 0 store)
         else None)"
    by (rule transactionUpdates_select [of ?G, OF _ assms]) (simp add: clearedData_def)
  show ?thesis
    by (auto simp add: clearLedgerEntries_def Let_def sel)
qed

text \<open>
  Claim C7, as stated, fails: with a clock that advances between two readings, the
  two RESERVED entries of an order are cleared with different \<^verbatim>\<open>clearedAt\<close> values.
\<close>

theorem clearLedgerEntries_single_timestamp_counterexample:
  "clearLedgerEntries exampleEnv exampleStore ''order1''
     = (Inr [(exampleEntry ''e1'' SALE 100 CLEARED) \<lparr> le_clearedAt := Some 1000 \<rparr>,
             (exampleEntry ''e2'' COMMISSION 10 CLEARED) \<lparr> le_clearedAt := Some 1001 \<rparr>],
        [(exampleEntry ''e1'' SALE 100 CLEARED) \<lparr> le_clearedAt := Some 1000 \<rparr>,
         (exampleEntry ''e2'' COMMISSION 10 CLEARED) \<lparr> le_clearedAt := Some 1001 \<rparr>,
         exampleEntry ''e3'' COMMISSION 7 PAID,
         exampleEntry ''e4'' COMMISSION 5 CANCELLED]) \<and>
   le_clearedAt ((exampleEntry ''e1'' SALE 100 CLEARED) \<lparr> le_clearedAt := Some 1000 \<rparr>)
     \<noteq> le_clearedAt ((exampleEntry ''e2'' COMMISSION 10 CLEARED) \<lparr> le_clearedAt := Some 1001 \<rparr>)"
  by (simp add: clearLedgerEntries_def exampleStore_def reservedWhere_def clearedData_def
        exampleEntry_def exampleEnv_def enumerate_eq_zip)

text \<open>
  Claim C7, amended. On a table with distinct ids, \<^verbatim>\<open>clearLedgerEntries\<close> returns an
  empty result and leaves the table as it is when the order has no RESERVED entry.
  Otherwise, when the database accepts the writes, it moves every RESERVED entry of
  the order, and only those, to CLEARED and returns the updated entries; each entry
  is stamped with a clock reading of its own, the \<open>k\<close>-th selected entry with the
  \<open>k\<close>-th reading of the call, so the timestamps agree only as far as the clock
  stands still during the call. When the database rejects a write the call fails
  with an internal error and the table is unchanged.
\<close>

theorem clearLedgerEntries_stamps_each_entry:
  "distinct (map le_id store) \<Longrightarrow>
   (filter (reservedWhere orderId) store = [] \<longrightarrow>
      clearLedgerEntries env store orderId = (Inr [], store)) \<and>
   (filter (reservedWhere orderId) store \<noteq> [] \<and>
    (\<forall>j<length (filter (reservedWhere orderId) store). env_writeOk env j) \<longrightarrow>
      (\<exists>store'. clearLedgerEntries env store orderId
          = (Inr (map (\<lambda>(k, e). e \<lparr> le_status := CLEARED,
                                       le_clearedAt := Some (env_now env k) \<rparr>)
                     (enumerate 0 (filter (reservedWhere orderId) store))), store') \<and>
         length store' = length store \<and>
         (\<forall>i<length store.
            store' ! i =
              (if reservedWhere orderId (store ! i)
               then (store ! i) \<lparr> le_status := CLEARED,
                      le_clearedAt := Some (env_now env
                        (length (filter (reservedWhere orderId) (take i store)))) \<rparr>
               else store ! i)))) \<and>
   (filter (reservedWhere orderId) store \<noteq> [] \<and>
    \<not> (\<forall>j<length (filter (reservedWhere orderId) store). env_writeOk env j) \<longrightarrow>
      clearLedgerEntries env store orderId
        = (Inl (InternalServerError ''LEDGER_ENTRY_CLEARING_FAILED''), store))"
proof -
  assume d: "distinct (map le_id store)"
  show ?thesis
    unfolding clear_result [OF d]
    by (simp add: selectThenUpdate_nth clearedData_def case_prod_beta)
qed

theorem clearLedgerEntries_stamps_each_entry_witness:
  "distinct (map le_id exampleStore) \<and>
   filter (reservedWhere ''order1'') exampleStore \<noteq> [] \<and>
   (\<exists>store'. clearLedgerEntries exampleEnv exampleStore ''order1''
          = (Inr (map (\<lambda>(k, e). e \<lparr> le_status := CLEARED,
                                       le_clearedAt := Some (env_now exampleEnv k) \<rparr>)
                     (enumerate 0 (filter (reservedWhere ''order1'') exampleStore))), store') \<and>
         length store' = length exampleStore) \<and>
   filter (reservedWhere ''order2'') exampleStore = [] \<and>
   clearLedgerEntries exampleEnv exampleStore ''order2'' = (Inr [], exampleStore)"
proof -
  have ne: "filter (reservedWhere ''order1'') exampleStore \<noteq> []"
    by (simp add: exampleStore_def exampleEntry_def reservedWhere_def)
  have em: "filter (reservedWhere ''order2'') exampleStore = []"
    by (simp add: exampleStore_def exampleEntry_def reservedWhere_def)
  from clearLedgerEntries_stamps_each_entry [OF exampleStore_distinct, of "''order1''" exampleEnv]
       clearLedgerEntries_stamps_each_entry [OF exampleStore_distinct, of "''order2''" exampleEnv]
       exampleStore_distinct ne em exampleEnv_writeOk
  show ?thesis by blast
qed

subsection \<open>Status transitions\<close>

lemma clear_transitions:
  assumes "distinct (map le_id store)"
  shows "list_all2 (\<lambda>e e'. e' = e \<or> (le_status e = RESERVED \<and> le_status e' = CLEARED))
           store (snd (clearLedgerEntries env store orderId))"
  unfolding clear_result [OF assms]
  by (auto intro!: list_all2_refl selectThenUpdate_rel simp add: reservedWhere_def clearedData_def)

lemma cancel_result:
  assumes "distinct (map le_id store)"
  shows "cancelLedgerEntries env store orderId reason =
     (if filter (notCancelledWhere orderId) store = [] then (Inr [], store)
      else if \<forall>j<length (filter (notCancelledWhere orderId) store). env_writeOk env j
      then (Inr (map (\<lambda>(j, e). cancelledData reason (env_now env j) e e)
                   (enumerate 0 (filter (notCancelledWhere orderId) store))),
            selectThenUpdate (notCancelledWhere orderId)
              (\<lambda>j e. cancelledData reason (env_now env j) e e) 0 store)
      else (Inl (InternalServerError ''LEDGER_ENTRY_CANCELLATION_FAILED''), store))"
proof -
  let ?G = "\<lambda>j (e::LedgerEntry). cancelledData reason (env_now env j) e"
  have sel: "transactionUpdates (env_writeOk env) 0
        (map (\<lambda>(j, e). (le_id e, cancelledData reason (env_now env j) e))
             (enumerate 0 (filter (notCancelledWhere orderId) store))) store
      = (if \<forall>j<length (filter (notCancelledWhere orderId) store). env_writeOk env (0 + j)
         then Some (map (\<lambda>(j, e). cancelledData reason (env_now env j) e e)
                      (enumerate 0 (filter (notCancelledWhere orderId) store)),
                    selectThenUpdate (notCancelledWhere orderId)
                      (\<lambda>j e. cancelledData reason (env_now env j) e e) 0 store)
         else None)"
    by (rule transactionUpdates_select [of ?G, OF _ assms]) (simp add: cancelledData_def)
  show ?thesis
    by (auto simp add: cancelLedgerEntries_def Let_def sel)
qed

lemma cancel_transitions:
  assumes "distinct (map le_id store)"
  shows "list_all2 (\<lambda>e e'. e' = e \<or> (le_status e \<noteq> CANCELLED \<and> le_status e' = CANCELLED))
           store (snd (cancelLedgerEntries env store orderId reason))"
  unfolding cancel_result [OF assms]
  by (auto intro!: list_all2_refl selectThenUpdate_rel
        simp add: notCancelledWhere_def cancelledData_def)

lemma cancel_all:
  assumes "distinct (map le_id store)"
    and "\<forall>j<length (filter (notCancelledWhere orderId) store). env_writeOk env j"
  shows "(\<exists>es. fst (cancelLedgerEntries env store orderId reason) = Inr es) \<and>
         list_all2 (\<lambda>e e'. le_orderId e = orderId \<longrightarrow> le_status e' = CANCELLED)
           store (snd (cancelLedgerEntries env store orderId reason))"
proof (cases "filter (notCancelledWhere orderId) store = []")
  case True
  then have "\<forall>e\<in>set store. \<not> notCancelledWhere orderId e"
    by (simp add: filter_empty_conv)
  then have "list_all2 (\<lambda>e e'. le_orderId e = orderId \<longrightarrow> le_status e' = CANCELLED) store store"
    by (auto simp add: list_all2_conv_all_nth notCancelledWhere_def)
  with True show ?thesis
    unfolding cancel_result [OF assms(1)] by simp
next
  case False
  have "list_all2 (\<lambda>e e'. le_orderId e = orderId \<longrightarrow> le_status e' = CANCELLED) store
          (selectThenUpdate (notCancelledWhere orderId)
              (\<lambda>j e. cancelledData reason (env_now env j) e e) 0 store)"
    by (rule selectThenUpdate_all) (auto simp add: notCancelledWhere_def cancelledData_def)
  with False assms(2) show ?thesis
    unfolding cancel_result [OF assms(1)] by simp
qed

lemma paid_updates_ids:
  "fst ` set (map (\<lambda>(k, i). (i, paidData payoutId (env_now env k))) (enumerate 0 ids)) = set ids"
proof -
  have "set (map fst (map (\<lambda>(k, i). (i, paidData payoutId (env_now env k))) (enumerate 0 ids)))
          = set (map (\<lambda>i. i) ids)"
    by (simp only: map_fst_enumerate_updates [of "\<lambda>i. i" "\<lambda>k i. paidData payoutId (env_now env k)"])
  then show ?thesis by (simp only: set_map) simp
qed

lemma paid_updates_props:
  "(i, f) \<in> set (map (\<lambda>(k, i). (i, paidData payoutId (env_now env k))) (enumerate 0 ids)) \<Longrightarrow>
   le_id (f x) = le_id x \<and> le_status (f x) = PAID \<and> le_payoutId (f x) = Some payoutId"
  by (auto simp add: paidData_def)

lemma paid_none:
  "(transactionUpdates (env_writeOk env) 0
      (map (\<lambda>(k, i). (i, paidData payoutId (env_now env k))) (enumerate 0 ids)) store = None)
   = (\<not> ((\<forall>j<length ids. env_writeOk env j) \<and> set ids \<subseteq> le_id ` set store))"
proof -
  have "(transactionUpdates (env_writeOk env) 0
      (map (\<lambda>(k, i). (i, paidData payoutId (env_now env k))) (enumerate 0 ids)) store \<noteq> None)
   = ((\<forall>j<length (map (\<lambda>(k, i). (i, paidData payoutId (env_now env k))) (enumerate 0 ids)).
         env_writeOk env (0 + j)) \<and>
      fst ` set (map (\<lambda>(k, i). (i, paidData payoutId (env_now env k))) (enumerate 0 ids))
        \<subseteq> le_id ` set store)"
    by (rule transactionUpdates_succeeds) (simp add: paid_updates_props)
  then have "(transactionUpdates (env_writeOk env) 0
      (map (\<lambda>(k, i). (i, paidData payoutId (env_now env k))) (enumerate 0 ids)) store = None)
   = (\<not> ((\<forall>j<length (map (\<lambda>(k, i). (i, paidData payoutId (env_now env k))) (enumerate 0 ids)).
         env_writeOk env (0 + j)) \<and>
      fst ` set (map (\<lambda>(k, i). (i, paidData payoutId (env_now env k))) (enumerate 0 ids))
        \<subseteq> le_id ` set store))"
    by blast
  then show ?thesis
    by (simp only: paid_updates_ids length_map length_enumerate add_0_left)
qed

lemma paid_fails:
  "\<not> ((\<forall>j<length ids. env_writeOk env j) \<and> set ids \<subseteq> le_id ` set store) \<Longrightarrow>
   markCommissionsAsPaid env store ids payoutId
     = (Inl (InternalServerError ''COMMISSION_PAYMENT_UPDATE_FAILED''), store)"
  using paid_none [of env payoutId ids store, THEN iffD2]
  by (simp add: markCommissionsAsPaid_def)

lemma paid_marks:
  assumes d: "distinct (map le_id store)"
    and ok: "(\<forall>j<length ids. env_writeOk env j) \<and> set ids \<subseteq> le_id ` set store"
  shows "(\<exists>es. fst (markCommissionsAsPaid env store ids payoutId) = Inr es) \<and>
     list_all2 (\<lambda>e e'. if le_id e \<in> set ids
                        then le_status e' = PAID \<and> le_payoutId e' = Some payoutId
                        else e' = e)
       store (snd (markCommissionsAsPaid env store ids payoutId))"
proof -
  let ?us = "map (\<lambda>(k, i). (i, paidData payoutId (env_now env k))) (enumerate 0 ids)"
  from ok paid_none [of env payoutId ids store]
  have "transactionUpdates (env_writeOk env) 0 ?us store \<noteq> None"
    by blast
  then obtain es s' where r: "transactionUpdates (env_writeOk env) 0 ?us store = Some (es, s')"
    by (cases "transactionUpdates (env_writeOk env) 0 ?us store") auto
  have "list_all2 (\<lambda>e e'. le_id e' = le_id e \<and>
          (if le_id e \<in> fst ` set ?us
           then le_status e' = PAID \<and> le_payoutId e' = Some payoutId else e' = e)) store s'"
    by (rule transactionUpdates_marks
          [of ?us "\<lambda>e'. le_status e' = PAID \<and> le_payoutId e' = Some payoutId", OF _ _ d r])
       (simp_all add: paid_updates_props)
  then have "list_all2 (\<lambda>e e'. if le_id e \<in> set ids
                        then le_status e' = PAID \<and> le_payoutId e' = Some payoutId
                        else e' = e) store s'"
    unfolding paid_updates_ids by (rule list_all2_mono) (auto split: if_splits)
  with r show ?thesis by (simp add: markCommissionsAsPaid_def)
qed

lemma no_conflict:
  "fst (clearLedgerEntries env store orderId) \<noteq> Inl (ConflictError c) \<and>
   fst (cancelLedgerEntries env store orderId reason) \<noteq> Inl (ConflictError c) \<and>
   fst (markCommissionsAsPaid env store ids payoutId) \<noteq> Inl (ConflictError c)"
  by (simp add: clearLedgerEntries_def cancelLedgerEntries_def markCommissionsAsPaid_def Let_def
        split: option.splits prod.splits)

text \<open>
  Claim C2, as stated, fails: \<^verbatim>\<open>markCommissionsAsPaid\<close> succeeds on a RESERVED and a
  CANCELLED entry and leaves both PAID, and \<^verbatim>\<open>cancelLedgerEntries\<close> moves a PAID entry
  to CANCELLED.
\<close>

theorem ledger_status_conflict_counterexample:
  "markCommissionsAsPaid exampleEnv exampleStore [''e2'', ''e4''] ''p1''
     = (Inr [(exampleEntry ''e2'' COMMISSION 10 PAID)
               \<lparr> le_payoutId := Some ''p1'', le_paidAt := Some 1000 \<rparr>,
             (exampleEntry ''e4'' COMMISSION 5 PAID)
               \<lparr> le_payoutId := Some ''p1'', le_paidAt := Some 1001 \<rparr>],
        [exampleEntry ''e1'' SALE 100 RESERVED,
         (exampleEntry ''e2'' COMMISSION 10 PAID)
               \<lparr> le_payoutId := Some ''p1'', le_paidAt := Some 1000 \<rparr>,
         exampleEntry ''e3'' COMMISSION 7 PAID,
         (exampleEntry ''e4'' COMMISSION 5 PAID)
               \<lparr> le_payoutId := Some ''p1'', le_paidAt := Some 1001 \<rparr>]) \<and>
   cancelLedgerEntries exampleEnv [exampleEntry ''e3'' COMMISSION 7 PAID] ''order1'' ''refund''
     = (Inr [(exampleEntry ''e3'' COMMISSION 7 CANCELLED)
               \<lparr> le_metadata := [(''cancellationReason'', JString ''refund''),
                                  (''cancelledAt'', JIsoDate 1000)] \<rparr>],
        [(exampleEntry ''e3'' COMMISSION 7 CANCELLED)
               \<lparr> le_metadata := [(''cancellationReason'', JString ''refund''),
                                  (''cancelledAt'', JIsoDate 1000)] \<rparr>])"
  by (simp add: markCommissionsAsPaid_def cancelLedgerEntries_def exampleStore_def
        notCancelledWhere_def paidData_def cancelledData_def
        exampleEntry_def exampleEnv_def enumerate_eq_zip)

text \<open>
  Claim C2, amended. On a table with distinct ids: \<^verbatim>\<open>clearLedgerEntries\<close> changes a
  row only by the transition RESERVED to CLEARED. \<^verbatim>\<open>cancelLedgerEntries\<close> changes a
  row only by moving it from a status other than CANCELLED to CANCELLED, and when the
  database accepts the writes it succeeds and leaves every entry of the order
  CANCELLED, the PAID ones included. \<^verbatim>\<open>markCommissionsAsPaid\<close> succeeds exactly when
  every id names a row and the database accepts the writes; it then sets every named
  row to PAID with the payout id, whatever its status was, and leaves the other rows
  alone; otherwise it fails with an internal error and changes nothing. None of the
  three operations ever fails with a conflict.
\<close>

theorem ledger_status_transitions:
  "distinct (map le_id store) \<Longrightarrow>
   list_all2 (\<lambda>e e'. e' = e \<or> (le_status e = RESERVED \<and> le_status e' = CLEARED))
     store (snd (clearLedgerEntries env store orderId)) \<and>
   list_all2 (\<lambda>e e'. e' = e \<or> (le_status e \<noteq> CANCELLED \<and> le_status e' = CANCELLED))
     store (snd (cancelLedgerEntries env store orderId reason)) \<and>
   ((\<forall>j<length (filter (notCancelledWhere orderId) store). env_writeOk env j) \<longrightarrow>
      (\<exists>es. fst (cancelLedgerEntries env store orderId reason) = Inr es) \<and>
      list_all2 (\<lambda>e e'. le_orderId e = orderId \<longrightarrow> le_status e' = CANCELLED)
        store (snd (cancelLedgerEntries env store orderId reason))) \<and>
   ((\<forall>j<length commissionIds. env_writeOk env j) \<and> set commissionIds \<subseteq> le_id ` set store \<longrightarrow>
      (\<exists>es. fst (markCommissionsAsPaid env store commissionIds payoutId) = Inr es) \<and>
      list_all2 (\<lambda>e e'. if le_id e \<in> set commissionIds
                         then le_status e' = PAID \<and> le_payoutId e' = Some payoutId
                         else e' = e)
        store (snd (markCommissionsAsPaid env store commissionIds payoutId))) \<and>
   (\<not> ((\<forall>j<length commissionIds. env_writeOk env j) \<and>
        set commissionIds \<subseteq> le_id ` set store) \<longrightarrow>
      markCommissionsAsPaid env store commissionIds payoutId
        = (Inl (InternalServerError ''COMMISSION_PAYMENT_UPDATE_FAILED''), store)) \<and>
   (\<forall>c. fst (clearLedgerEntries env store orderId) \<noteq> Inl (ConflictError c) \<and>
        fst (cancelLedgerEntries env store orderId reason) \<noteq> Inl (ConflictError c) \<and>
        fst (markCommissionsAsPaid env store commissionIds payoutId) \<noteq> Inl (ConflictError c))"
proof -
  assume d: "distinct (map le_id store)"
  note a = clear_transitions [OF d, of env orderId]
  note b = cancel_transitions [OF d, of env orderId reason]
  have c: "(\<forall>j<length (filter (notCancelledWhere orderId) store). env_writeOk env j) \<longrightarrow>
      (\<exists>es. fst (cancelLedgerEntries env store orderId reason) = Inr es) \<and>
      list_all2 (\<lambda>e e'. le_orderId e = orderId \<longrightarrow> le_status e' = CANCELLED)
        store (snd (cancelLedgerEntries env store orderId reason))"
    using cancel_all [OF d, of orderId env reason] by blast
  have e: "(\<forall>j<length commissionIds. env_writeOk env j) \<and> set commissionIds \<subseteq> le_id ` set store \<longrightarrow>
      (\<exists>es. fst (markCommissionsAsPaid env store commissionIds payoutId) = Inr es) \<and>
      list_all2 (\<lambda>e e'. if le_id e \<in> set commissionIds
                         then le_status e' = PAID \<and> le_payoutId e' = Some payoutId
                         else e' = e)
        store (snd (markCommissionsAsPaid env store commissionIds payoutId))"
    using paid_marks [OF d, of commissionIds env payoutId] by blast
  have f: "\<not> ((\<forall>j<length commissionIds. env_writeOk env j) \<and>
        set commissionIds \<subseteq> le_id ` set store) \<longrightarrow>
      markCommissionsAsPaid env store commissionIds payoutId
        = (Inl (InternalServerError ''COMMISSION_PAYMENT_UPDATE_FAILED''), store)"
    using paid_fails [of commissionIds env store payoutId] by blast
  have g: "\<forall>c. fst (clearLedgerEntries env store orderId) \<noteq> Inl (ConflictError c) \<and>
        fst (cancelLedgerEntries env store orderId reason) \<noteq> Inl (ConflictError c) \<and>
        fst (markCommissionsAsPaid env store commissionIds payoutId) \<noteq> Inl (ConflictError c)"
    using no_conflict by blast
  from a b c e f g show ?thesis by (intro conjI)
qed

theorem ledger_status_transitions_witness:
  "distinct (map le_id exampleStore) \<and>
   set [''e2'', ''e4''] \<subseteq> le_id ` set exampleStore \<and>
   (\<exists>es. fst (markCommissionsAsPaid exampleEnv exampleStore [''e2'', ''e4''] ''p1'') = Inr es) \<and>
   (\<exists>es. fst (cancelLedgerEntries exampleEnv exampleStore ''order1'' ''refund'') = Inr es)"
proof -
  have s: "set [''e2'', ''e4''] \<subseteq> le_id ` set exampleStore"
    by (simp add: exampleStore_def exampleEntry_def)
  from ledger_status_transitions [OF exampleStore_distinct, of exampleEnv "''order1''" "''refund''" "[''e2'', ''e4'']" "''p1''"]
    exampleStore_distinct s exampleEnv_writeOk
  show ?thesis by blast
qed

subsection \<open>Creating the entries of a split\<close>

lemma all_less_4: "(\<forall>k<4. P (k::nat)) = (P 0 \<and> P 1 \<and> P 2 \<and> P 3)"
proof -
  have "{..<4::nat} = {0, 1, 2, 3}" by auto
  then have "(\<forall>k<4. P k) = (\<forall>k\<in>{0, 1, 2, 3}. P k)" by (metis lessThan_iff)
  then show ?thesis by simp
qed

lemma createRow_cases:
  "createRow env k req s =
     (if env_writeOk env k \<and> env_newId env k \<notin> le_id ` set s
      then Some (\<lparr> le_id = env_newId env k,
                         le_organizationId = req_organizationId req,
                         le_orderId = req_orderId req,
                         le_orderItemId = req_orderItemId req,
                         le_payoutId = req_payoutId req,
                         le_entryType = req_entryType req,
                         le_amount = req_amount req,
                         le_currency = req_currency req,
                         le_description = req_description req,
                         le_status = req_status req,
                         le_metadata = req_metadata req,
                         le_createdAt = env_createdAt env k,
                         le_clearedAt = None,
                         le_paidAt = None \<rparr>,
                 s @ [\<lparr> le_id = env_newId env k,
                         le_organizationId = req_organizationId req,
                         le_orderId = req_orderId req,
                         le_orderItemId = req_orderItemId req,
                         le_payoutId = req_payoutId req,
                         le_entryType = req_entryType req,
                         le_amount = req_amount req,
                         le_currency = req_currency req,
                         le_description = req_description req,
                         le_status = req_status req,
                         le_metadata = req_metadata req,
                         le_createdAt = env_createdAt env k,
                         le_clearedAt = None,
                         le_paidAt = None \<rparr>])
      else None)"
  by (simp add: createRow_def Let_def)

text \<open>
  Claim C4. A successful \<^verbatim>\<open>createLedgerEntries\<close> appends exactly four entries to the
  ledger and returns them: SALE with the subtotal, PLATFORM_FEE with the platform fee,
  COMMISSION with the creator commission and the \<^verbatim>\<open>creatorId\<close> in its metadata, and
  PAYMENT_FEE with the payment fee, all RESERVED, for the order and order item and
  in the currency of the calculation. A failed call raises the internal error
  \<^verbatim>\<open>LEDGER_ENTRY_CREATION_FAILED\<close> and leaves the ledger as it was, so the ledger
  never holds a part of the four. The call succeeds exactly when the database
  accepts the four inserts with four fresh, distinct ids.
\<close>

theorem createLedgerEntries_atomic:
  "createLedgerEntries env store calculation order creatorId = (r, store') \<Longrightarrow>
   (\<forall>entries. r = Inr entries \<longrightarrow>
      store' = store @ entries \<and>
      map le_entryType entries = [SALE, PLATFORM_FEE, COMMISSION, PAYMENT_FEE] \<and>
      map le_amount entries
        = [calc_subtotal calculation, calc_platformFee calculation,
           calc_creatorCommission calculation, calc_paymentFee calculation] \<and>
      (\<forall>e\<in>set entries. le_status e = RESERVED \<and> le_orderId e = order_id order \<and>
          le_orderItemId e = Some (calc_orderItemId calculation) \<and>
          le_currency e = calc_currency calculation) \<and>
      map_of (le_metadata (entries ! 2)) ''creatorId'' = Some (JString creatorId)) \<and>
   (\<forall>err. r = Inl err \<longrightarrow>
      store' = store \<and> err = InternalServerError ''LEDGER_ENTRY_CREATION_FAILED'') \<and>
   ((\<exists>entries. r = Inr entries) \<longleftrightarrow>
      (\<forall>k<4. env_writeOk env k \<and> env_newId env k \<notin> le_id ` set store) \<and>
      distinct [env_newId env 0, env_newId env 1, env_newId env 2, env_newId env 3])"
  unfolding createLedgerEntries_def createRow_cases all_less_4
  by (auto simp add: splitRequest_def splitMetadata_def split: if_splits)

theorem createLedgerEntries_atomic_witness:
  "fst (createLedgerEntries exampleEnv exampleStore exampleCalculation exampleOrder ''creator1'')
     \<noteq> Inl (InternalServerError ''LEDGER_ENTRY_CREATION_FAILED'') \<and>
   map le_amount (snd (createLedgerEntries exampleEnv exampleStore exampleCalculation
                         exampleOrder ''creator1''))
     = map le_amount exampleStore @ [100, 5, 10, 29 / 10]"
proof -
  obtain r store' where
    c: "createLedgerEntries exampleEnv exampleStore exampleCalculation exampleOrder ''creator1''
          = (r, store')"
    by (cases "createLedgerEntries exampleEnv exampleStore exampleCalculation exampleOrder ''creator1''")
  have ok: "(\<forall>k<4. env_writeOk exampleEnv k \<and> env_newId exampleEnv k \<notin> le_id ` set exampleStore) \<and>
      distinct [env_newId exampleEnv 0, env_newId exampleEnv 1, env_newId exampleEnv 2,
                env_newId exampleEnv 3]"
    by (simp add: all_less_4 exampleEnv_def exampleStore_def exampleEntry_def eval_nat_numeral)
  from createLedgerEntries_atomic [OF c] ok obtain entries where
    "r = Inr entries" "store' = exampleStore @ entries"
    "map le_amount entries
        = [calc_subtotal exampleCalculation, calc_platformFee exampleCalculation,
           calc_creatorCommission exampleCalculation, calc_paymentFee exampleCalculation]"
    by blast
  with c show ?thesis by (simp add: exampleCalculation_def)
qed

subsection \<open>Reconciliation\<close>







end
